theory Spec2Isabelle
  imports Main
begin

section \<open>Policy value types\<close>

text \<open>
  \<^verbatim>\<open>SubscriptionPolicy\<close>, \<^verbatim>\<open>PrivacyPolicy\<close> and \<^verbatim>\<open>MembershipState\<close> of
  \<^verbatim>\<open>models.py\<close> are classes of one-character string codes with a \<^verbatim>\<open>validate\<close>
  class method. The codes stay strings here, as the columns store them, so that a
  code outside the three valid ones is a value the model can talk about.
\<close>

definition SubscriptionPolicy_OPEN :: string where
  "SubscriptionPolicy_OPEN = ''O''"

definition SubscriptionPolicy_APPROVAL :: string where
  "SubscriptionPolicy_APPROVAL = ''A''"

definition SubscriptionPolicy_CLOSED :: string where
  "SubscriptionPolicy_CLOSED = ''C''"

definition SubscriptionPolicy_validate :: "string \<Rightarrow> bool" where
  "SubscriptionPolicy_validate policy \<longleftrightarrow>
     policy \<in> set [SubscriptionPolicy_OPEN, SubscriptionPolicy_APPROVAL,
                    SubscriptionPolicy_CLOSED]"

definition PrivacyPolicy_PUBLIC :: string where
  "PrivacyPolicy_PUBLIC = ''P''"

definition PrivacyPolicy_MEMBERS :: string where
  "PrivacyPolicy_MEMBERS = ''M''"

definition PrivacyPolicy_ADMINS :: string where
  "PrivacyPolicy_ADMINS = ''A''"

definition PrivacyPolicy_validate :: "string \<Rightarrow> bool" where
  "PrivacyPolicy_validate policy \<longleftrightarrow>
     policy \<in> set [PrivacyPolicy_PUBLIC, PrivacyPolicy_MEMBERS, PrivacyPolicy_ADMINS]"

definition MembershipState_PENDING_ADMIN :: string where
  "MembershipState_PENDING_ADMIN = ''A''"

definition MembershipState_PENDING_USER :: string where
  "MembershipState_PENDING_USER = ''U''"

definition MembershipState_ACTIVE :: string where
  "MembershipState_ACTIVE = ''M''"

definition MembershipState_validate :: "string \<Rightarrow> bool" where
  "MembershipState_validate st \<longleftrightarrow>
     st \<in> set [MembershipState_ACTIVE, MembershipState_PENDING_ADMIN,
                MembershipState_PENDING_USER]"

section \<open>Rows, objects and exceptions\<close>

text \<open>
  One record per table. The \<^verbatim>\<open>created\<close> and \<^verbatim>\<open>modified\<close> columns hold
  wall-clock times (\<^verbatim>\<open>datetime.now\<close>); no operation below reads them and they are
  left out. \<^verbatim>\<open>User\<close> is the accounts module's table, of which the code uses the
  identifier, the email and the nickname.
\<close>

record User =
  User_id :: nat
  email :: string
  nickname :: string

record Group =
  Group_id :: nat
  name :: string
  description :: string
  is_managed :: bool
  privacy_policy :: string
  subscription_policy :: string

record Membership =
  id_user :: nat
  id_group :: nat
  state :: string

record GroupAdmin =
  GroupAdmin_id :: nat
  group_id :: nat
  admin_type :: string
  admin_id :: nat

text \<open>
  The objects the code receives as \<^verbatim>\<open>user\<close> or \<^verbatim>\<open>admin\<close>: a \<^verbatim>\<open>User\<close> row, a
  \<^verbatim>\<open>UserInfo\<close> wrapper, the \<^verbatim>\<open>current_user\<close> proxy of the login extension, or a
  \<^verbatim>\<open>Group\<close>. Each answers \<^verbatim>\<open>get_id()\<close>.
\<close>

datatype principal =
    User_object User
  | UserInfo_object nat
  | Current_user nat
  | Group_object Group

fun get_id :: "principal \<Rightarrow> nat" where
  "get_id (User_object u) = User_id u"
| "get_id (UserInfo_object uid) = uid"
| "get_id (Current_user uid) = uid"
| "get_id (Group_object g) = Group_id g"

text \<open>
  \<^verbatim>\<open>resolve_admin_type\<close>: \<^verbatim>\<open>"User"\<close> for the current user and for a \<^verbatim>\<open>UserInfo\<close>,
  the name of the object's class otherwise.
\<close>

fun resolve_admin_type :: "principal \<Rightarrow> string" where
  "resolve_admin_type (Current_user uid) = ''User''"
| "resolve_admin_type (UserInfo_object uid) = ''User''"
| "resolve_admin_type (User_object u) = ''User''"
| "resolve_admin_type (Group_object g) = ''Group''"

text \<open>
  The lookups and the two predicates built on them take whatever value the caller
  passes: one of the objects above, or a value that has no \<^verbatim>\<open>get_id\<close> method
  (\<^verbatim>\<open>None\<close> for one), on which \<^verbatim>\<open>get_id()\<close> raises \<^verbatim>\<open>AttributeError\<close>.
\<close>

datatype pyobject = Principal principal | Other_value

datatype exn =
    AssertionError
  | TypeError
  | AttributeError
  | KeyError
  | IntegrityError
  | InvalidRequestError
  | NoResultFound
  | MultipleResultsFound

datatype signal = group_created Group | group_deleted Group

section \<open>The store and the session\<close>

text \<open>
  The store is the four tables. A session holds the committed store, the store as the
  open transaction sees it (\<open>pending\<close>: every write of \<^verbatim>\<open>db.session\<close> goes there, and
  queries read it), whether the transaction is still usable (\<open>active\<close>), and the signals
  sent so far.
\<close>

record store =
  users :: "User list"
  groups :: "Group list"
  memberships :: "Membership list"
  group_admins :: "GroupAdmin list"

record session =
  committed :: store
  pending :: store
  active :: bool
  sent :: "signal list"

text \<open>
  The constraints the table declarations state: the primary keys (\<^verbatim>\<open>group.id\<close>,
  the pair \<^verbatim>\<open>(id_user, id_group)\<close> of a membership, the pair \<^verbatim>\<open>(id, group_id)\<close>
  of a group admin), the unique group name, the unique triple
  \<^verbatim>\<open>(group_id, admin_type, admin_id)\<close>, and the foreign keys of \<^verbatim>\<open>id_user\<close>,
  \<^verbatim>\<open>id_group\<close> and \<^verbatim>\<open>group_id\<close>. \<^verbatim>\<open>admin_id\<close> is a plain integer column.
\<close>

definition membership_key :: "Membership \<Rightarrow> nat \<times> nat" where
  "membership_key m = (id_user m, id_group m)"

definition admin_key :: "GroupAdmin \<Rightarrow> nat \<times> string \<times> nat" where
  "admin_key a = (group_id a, admin_type a, admin_id a)"

definition unique_keys :: "store \<Rightarrow> bool" where
  "unique_keys st \<longleftrightarrow>
     distinct (map Group_id (groups st)) \<and>
     distinct (map name (groups st)) \<and>
     distinct (map membership_key (memberships st)) \<and>
     distinct (map (\<lambda>a. (GroupAdmin_id a, group_id a)) (group_admins st)) \<and>
     distinct (map admin_key (group_admins st))"

definition foreign_keys :: "store \<Rightarrow> bool" where
  "foreign_keys st \<longleftrightarrow>
     list_all (\<lambda>m. id_user m \<in> set (map User_id (users st)) \<and>
                    id_group m \<in> set (map Group_id (groups st))) (memberships st) \<and>
     list_all (\<lambda>a. group_id a \<in> set (map Group_id (groups st))) (group_admins st)"

definition integrity :: "store \<Rightarrow> bool" where
  "integrity st \<longleftrightarrow> unique_keys st \<and> foreign_keys st"

text \<open>
  \<^verbatim>\<open>db.session.commit()\<close> writes the transaction if the constraints hold. If they do
  not, the flush fails: the session discards the writes of the transaction, marks it
  inactive and raises \<^verbatim>\<open>IntegrityError\<close>. While the transaction is inactive, a commit
  and every statement raise \<^verbatim>\<open>InvalidRequestError\<close> and change nothing;
  \<^verbatim>\<open>db.session.rollback()\<close> discards what the session holds and makes it usable
  again.
\<close>

definition commit :: "session \<Rightarrow> (exn + unit) \<times> session" where
  "commit s =
     (if \<not> active s then (Inl InvalidRequestError, s)
      else if integrity (pending s) then (Inr (), s\<lparr>committed := pending s\<rparr>)
      else (Inl IntegrityError, s\<lparr>pending := committed s, active := False\<rparr>))"

definition rollback :: "session \<Rightarrow> session" where
  "rollback s = s\<lparr>pending := committed s, active := True\<rparr>"

text \<open>Running a query: the rows it selects, if the session can run a statement.\<close>

definition execute :: "session \<Rightarrow> 'a list \<Rightarrow> exn + 'a list" where
  "execute s rows = (if active s then Inr rows else Inl InvalidRequestError)"

definition send :: "signal \<Rightarrow> session \<Rightarrow> session" where
  "send sig s = s\<lparr>sent := sent s @ [sig]\<rparr>"

text \<open>
  \<^verbatim>\<open>Query.one()\<close>: the single row of the rows found, or one of its two exceptions;
  \<open>Query_one\<close> runs the query first.
\<close>

fun one :: "'a list \<Rightarrow> exn + 'a" where
  "one [] = Inl NoResultFound"
| "one [x] = Inr x"
| "one (x # y # rest) = Inl MultipleResultsFound"

definition Query_one :: "session \<Rightarrow> 'a list \<Rightarrow> exn + 'a" where
  "Query_one s rows = (case execute s rows of Inl e \<Rightarrow> Inl e | Inr found \<Rightarrow> one found)"

text \<open>An autoincrement column: one more than the largest identifier of the table.\<close>

definition next_id :: "nat list \<Rightarrow> nat" where
  "next_id ids = Suc (foldr max ids 0)"

section \<open>Membership\<close>

text \<open>
  The \<^verbatim>\<open>query_\<close> methods build a query and run no statement; each is modelled by the
  rows its query selects in the transaction's store.

  \<^verbatim>\<open>Membership._filter\<close> (the eager-loading options do not change the rows):
\<close>

definition Membership_filter :: "Membership list \<Rightarrow> string \<Rightarrow> Membership list" where
  "Membership_filter query st = filter (\<lambda>m. state m = st) query"

definition Membership_query_by_user :: "session \<Rightarrow> principal \<Rightarrow> string \<Rightarrow> Membership list" where
  "Membership_query_by_user s user st =
     Membership_filter
       (filter (\<lambda>m. id_user m = get_id user) (memberships (pending s))) st"

definition Membership_query_invitations :: "session \<Rightarrow> principal \<Rightarrow> Membership list" where
  "Membership_query_invitations s user =
     Membership_query_by_user s user MembershipState_PENDING_USER"

text \<open>
  \<^verbatim>\<open>Membership.query_by_group(group_or_id, with_invitations=False, **kwargs)\<close>: the
  first argument is a group or an identifier; without \<^verbatim>\<open>with_invitations\<close> the rows
  go through \<^verbatim>\<open>_filter\<close>, whose \<^verbatim>\<open>state\<close> defaults to \<^verbatim>\<open>ACTIVE\<close> (passed here by
  the caller).
\<close>

definition Membership_query_by_group ::
  "session \<Rightarrow> Group + nat \<Rightarrow> bool \<Rightarrow> string \<Rightarrow> Membership list" where
  "Membership_query_by_group s group_or_id with_invitations st =
     (let id_group' = (case group_or_id of Inl g \<Rightarrow> Group_id g | Inr i \<Rightarrow> i) in
      if \<not> with_invitations then
        Membership_filter
          (filter (\<lambda>m. id_group m = id_group') (memberships (pending s))) st
      else
        filter (\<lambda>m. id_group m = id_group' \<and>
                    (state m = MembershipState_PENDING_USER \<or>
                     state m = MembershipState_ACTIVE))
          (memberships (pending s)))"

text \<open>
  The \<^verbatim>\<open>state\<close> column is a \<^verbatim>\<open>ChoiceType\<close> over \<^verbatim>\<open>MEMBERSHIP_STATE\<close>: loading a
  row looks its code up in that dictionary (an empty code is passed through), and a code
  that is not a key raises \<^verbatim>\<open>KeyError\<close>.
\<close>

definition state_loads :: "string \<Rightarrow> bool" where
  "state_loads code \<longleftrightarrow>
     code = [] \<or>
     code \<in> set [MembershipState_PENDING_ADMIN, MembershipState_PENDING_USER,
                  MembershipState_ACTIVE]"

definition load_memberships :: "Membership list \<Rightarrow> exn + Membership list" where
  "load_memberships rows =
     (if list_all (\<lambda>m. state_loads (state m)) rows then Inr rows else Inl KeyError)"

text \<open>
  The \<^verbatim>\<open>try\<close> block of \<^verbatim>\<open>Membership.get\<close>: \<^verbatim>\<open>user.get_id()\<close> while the filter is
  built, then the statement, the loading of the rows found, and \<^verbatim>\<open>one()\<close>.
\<close>

definition Membership_lookup :: "session \<Rightarrow> Group \<Rightarrow> pyobject \<Rightarrow> exn + Membership" where
  "Membership_lookup s grp user =
     (case user of
        Other_value \<Rightarrow> Inl AttributeError
      | Principal u \<Rightarrow>
          (case execute s
                  (filter (\<lambda>m. id_user m = get_id u \<and> id_group m = Group_id grp)
                     (memberships (pending s))) of
             Inl e \<Rightarrow> Inl e
           | Inr found \<Rightarrow>
               (case load_memberships found of
                  Inl e \<Rightarrow> Inl e
                | Inr loaded \<Rightarrow> one loaded)))"

text \<open>\<^verbatim>\<open>Membership.get\<close>: every exception of the lookup becomes \<^verbatim>\<open>None\<close>.\<close>

definition Membership_get :: "session \<Rightarrow> Group \<Rightarrow> pyobject \<Rightarrow> exn + Membership option" where
  "Membership_get s grp user =
     (case Membership_lookup s grp user of
        Inr m \<Rightarrow> Inr (Some m)
      | Inl e \<Rightarrow> Inr None)"

definition session_add_membership :: "Membership \<Rightarrow> session \<Rightarrow> session" where
  "session_add_membership m s =
     s\<lparr>pending := (pending s)\<lparr>memberships := memberships (pending s) @ [m]\<rparr>\<rparr>"

text \<open>
  \<^verbatim>\<open>Membership.create\<close>: add the row and commit; on \<^verbatim>\<open>IntegrityError\<close> roll back
  and raise again.
\<close>

definition Membership_create ::
  "session \<Rightarrow> Group \<Rightarrow> principal \<Rightarrow> string \<Rightarrow> (exn + Membership) \<times> session" where
  "Membership_create s grp user st =
     (let membership = \<lparr>id_user = get_id user, id_group = Group_id grp, state = st\<rparr> in
      case commit (session_add_membership membership s) of
        (Inr u, s') \<Rightarrow> (Inr membership, s')
      | (Inl e, s') \<Rightarrow>
          if e = IntegrityError then (Inl e, rollback s') else (Inl e, s'))"

text \<open>
  \<^verbatim>\<open>Membership.delete\<close>: a bulk delete of the rows of (group, user), then commit; on
  any exception roll back and raise again. The bulk delete is a statement, so in an
  inactive session it is the one that raises.
\<close>

definition Membership_delete :: "session \<Rightarrow> Group \<Rightarrow> principal \<Rightarrow> (exn + unit) \<times> session" where
  "Membership_delete s grp user =
     (if \<not> active s then (Inl InvalidRequestError, rollback s)
      else
        (let s1 = s\<lparr>pending := (pending s)\<lparr>memberships :=
                    filter (\<lambda>m. \<not> (id_group m = Group_id grp \<and> id_user m = get_id user))
                      (memberships (pending s))\<rparr>\<rparr> in
         case commit s1 of
           (Inr u, s') \<Rightarrow> (Inr (), s')
         | (Inl e, s') \<Rightarrow> (Inl e, rollback s')))"

text \<open>
  \<^verbatim>\<open>Membership.accept\<close>: set the state of the row to \<^verbatim>\<open>ACTIVE\<close> and commit. There is
  no exception handler: what the commit raises goes to the caller and nothing calls
  \<^verbatim>\<open>rollback\<close>.
\<close>

definition Membership_accept :: "session \<Rightarrow> Membership \<Rightarrow> (exn + unit) \<times> session" where
  "Membership_accept s self =
     commit (s\<lparr>pending := (pending s)\<lparr>memberships :=
       map (\<lambda>m. if membership_key m = membership_key self
                then m\<lparr>state := MembershipState_ACTIVE\<rparr> else m)
         (memberships (pending s))\<rparr>\<rparr>)"

text \<open>
  \<^verbatim>\<open>Membership.reject\<close>: \<^verbatim>\<open>db.session.delete(self)\<close> and commit; on any exception
  roll back and raise again. Deleting an object that has no row in the session raises
  \<^verbatim>\<open>InvalidRequestError\<close>.
\<close>

definition Membership_reject :: "session \<Rightarrow> Membership \<Rightarrow> (exn + unit) \<times> session" where
  "Membership_reject s self =
     (if membership_key self \<notin> set (map membership_key (memberships (pending s)))
      then (Inl InvalidRequestError, rollback s)
      else
        (let s1 = s\<lparr>pending := (pending s)\<lparr>memberships :=
                    filter (\<lambda>m. membership_key m \<noteq> membership_key self)
                      (memberships (pending s))\<rparr>\<rparr> in
         case commit s1 of
           (Inr u, s') \<Rightarrow> (Inr (), s')
         | (Inl e, s') \<Rightarrow> (Inl e, rollback s')))"

definition Membership_is_active :: "Membership \<Rightarrow> bool" where
  "Membership_is_active self \<longleftrightarrow> state self = MembershipState_ACTIVE"

section \<open>GroupAdmin\<close>

definition GroupAdmin_query_by_group :: "session \<Rightarrow> Group \<Rightarrow> GroupAdmin list" where
  "GroupAdmin_query_by_group s grp =
     filter (\<lambda>a. group_id a = Group_id grp) (group_admins (pending s))"

definition GroupAdmin_query_by_admin :: "session \<Rightarrow> principal \<Rightarrow> GroupAdmin list" where
  "GroupAdmin_query_by_admin s admin =
     filter (\<lambda>a. admin_type a = resolve_admin_type admin \<and> admin_id a = get_id admin)
       (group_admins (pending s))"

text \<open>
  The \<^verbatim>\<open>try\<close> block of \<^verbatim>\<open>GroupAdmin.get\<close>: \<^verbatim>\<open>admin.get_id()\<close> and
  \<^verbatim>\<open>resolve_admin_type(admin)\<close> while the filter is built, then the statement and
  \<^verbatim>\<open>one()\<close>. The table has no \<^verbatim>\<open>ChoiceType\<close> column.
\<close>

definition GroupAdmin_lookup :: "session \<Rightarrow> Group \<Rightarrow> pyobject \<Rightarrow> exn + GroupAdmin" where
  "GroupAdmin_lookup s grp admin =
     (case admin of
        Other_value \<Rightarrow> Inl AttributeError
      | Principal a \<Rightarrow>
          Query_one s
            (filter (\<lambda>r. group_id r = Group_id grp \<and> admin_id r = get_id a \<and>
                         admin_type r = resolve_admin_type a)
               (group_admins (pending s))))"

text \<open>\<^verbatim>\<open>GroupAdmin.get\<close>: every exception of the lookup becomes \<^verbatim>\<open>None\<close>.\<close>

definition GroupAdmin_get :: "session \<Rightarrow> Group \<Rightarrow> pyobject \<Rightarrow> exn + GroupAdmin option" where
  "GroupAdmin_get s grp admin =
     (case GroupAdmin_lookup s grp admin of
        Inr ga \<Rightarrow> Inr (Some ga)
      | Inl e \<Rightarrow> Inr None)"

text \<open>
  \<^verbatim>\<open>Membership.query_requests\<close>: \<open>q1\<close> to \<open>q5\<close> are the source's five queries;
  \<^verbatim>\<open>in_\<close> is membership in the inner query's column, \<^verbatim>\<open>union\<close> drops repeated rows.
\<close>

definition Membership_query_requests :: "session \<Rightarrow> principal \<Rightarrow> Membership list" where
  "Membership_query_requests s admin =
     (let q1 = map group_id (GroupAdmin_query_by_admin s admin);
          q2 = filter (\<lambda>m. state m = MembershipState_PENDING_ADMIN \<and> id_group m \<in> set q1)
                 (memberships (pending s));
          q3 = map id_group (Membership_query_by_user s admin MembershipState_ACTIVE);
          q4 = map group_id
                 (filter (\<lambda>a. admin_type a = ''Group'' \<and> admin_id a \<in> set q3)
                    (group_admins (pending s)));
          q5 = filter (\<lambda>m. state m = MembershipState_PENDING_ADMIN \<and> id_group m \<in> set q4)
                 (memberships (pending s))
      in remdups (q2 @ q5))"

section \<open>Group\<close>

definition session_add_group :: "Group \<Rightarrow> session \<Rightarrow> session" where
  "session_add_group g s = s\<lparr>pending := (pending s)\<lparr>groups := groups (pending s) @ [g]\<rparr>\<rparr>"

definition session_add_admin :: "nat \<Rightarrow> session \<Rightarrow> principal \<Rightarrow> session" where
  "session_add_admin gid s a =
     s\<lparr>pending := (pending s)\<lparr>group_admins := group_admins (pending s) @
        [\<lparr>GroupAdmin_id = next_id (map GroupAdmin_id (group_admins (pending s))),
          group_id = gid, admin_type = resolve_admin_type a, admin_id = get_id a\<rparr>]\<rparr>\<rparr>"

text \<open>
  \<^verbatim>\<open>Group.create\<close>: the three assertions, then the group row (the column defaults
  \<^verbatim>\<open>ADMINS\<close> and \<^verbatim>\<open>CLOSED\<close> stand in for a policy that is \<^verbatim>\<open>None\<close>) and one
  \<^verbatim>\<open>GroupAdmin\<close> row per admin, one commit, the \<^verbatim>\<open>group_created\<close> signal; on
  \<^verbatim>\<open>IntegrityError\<close> roll back and raise again.
\<close>

definition Group_create ::
  "session \<Rightarrow> string option \<Rightarrow> string \<Rightarrow> string option \<Rightarrow> string option \<Rightarrow> bool \<Rightarrow>
   principal list option \<Rightarrow> (exn + Group) \<times> session" where
  "Group_create s name' description' privacy_policy' subscription_policy' is_managed' admins =
     (case name' of
        None \<Rightarrow> (Inl AssertionError, s)
      | Some n \<Rightarrow>
          if n = [] then (Inl AssertionError, s)
          else if \<not> (case privacy_policy' of None \<Rightarrow> True
                       | Some p \<Rightarrow> PrivacyPolicy_validate p)
          then (Inl AssertionError, s)
          else if \<not> (case subscription_policy' of None \<Rightarrow> True
                       | Some p \<Rightarrow> SubscriptionPolicy_validate p)
          then (Inl AssertionError, s)
          else
            (let obj = \<lparr>Group_id = next_id (map Group_id (groups (pending s))),
                        name = n, description = description', is_managed = is_managed',
                        privacy_policy =
                          (case privacy_policy' of None \<Rightarrow> PrivacyPolicy_ADMINS
                           | Some p \<Rightarrow> p),
                        subscription_policy =
                          (case subscription_policy' of None \<Rightarrow> SubscriptionPolicy_CLOSED
                           | Some p \<Rightarrow> p)\<rparr>;
                 s1 = session_add_group obj s;
                 s2 = foldl (session_add_admin (Group_id obj)) s1
                        (case admins of None \<Rightarrow> [] | Some as \<Rightarrow> as)
             in case commit s2 of
                  (Inr u, s') \<Rightarrow> (Inr obj, send (group_created obj) s')
                | (Inl e, s') \<Rightarrow>
                    if e = IntegrityError then (Inl e, rollback s') else (Inl e, s')))"

text \<open>\<^verbatim>\<open>Query.delete()\<close>: a bulk delete of the rows a query selects.\<close>

definition delete_memberships :: "Membership list \<Rightarrow> session \<Rightarrow> session" where
  "delete_memberships rows s =
     s\<lparr>pending := (pending s)\<lparr>memberships :=
        filter (\<lambda>m. m \<notin> set rows) (memberships (pending s))\<rparr>\<rparr>"

definition delete_admins :: "GroupAdmin list \<Rightarrow> session \<Rightarrow> session" where
  "delete_admins rows s =
     s\<lparr>pending := (pending s)\<lparr>group_admins :=
        filter (\<lambda>a. a \<notin> set rows) (group_admins (pending s))\<rparr>\<rparr>"

text \<open>
  \<^verbatim>\<open>db.session.delete(group)\<close>: the relationships \<^verbatim>\<open>Membership.group\<close> and
  \<^verbatim>\<open>GroupAdmin.group\<close> declare the backrefs \<^verbatim>\<open>members\<close> and \<^verbatim>\<open>admins\<close> with
  \<^verbatim>\<open>cascade="all, delete-orphan"\<close>, so the group's memberships and admin rows go
  with the group row.
\<close>

definition session_delete_group :: "Group \<Rightarrow> session \<Rightarrow> session" where
  "session_delete_group g s =
     s\<lparr>pending := (pending s)\<lparr>
        groups := filter (\<lambda>r. Group_id r \<noteq> Group_id g) (groups (pending s)),
        memberships := filter (\<lambda>m. id_group m \<noteq> Group_id g) (memberships (pending s)),
        group_admins := filter (\<lambda>a. group_id a \<noteq> Group_id g) (group_admins (pending s))\<rparr>\<rparr>"

text \<open>
  \<^verbatim>\<open>Group.delete\<close>: three bulk deletes (the memberships \<^verbatim>\<open>query_by_group\<close> selects
  by default, the admin rows of the group, the admin rows where the group is the
  admin), the group itself, one commit, the \<^verbatim>\<open>group_deleted\<close> signal; on any
  exception roll back and raise again. Deleting a group that has no row in the session
  raises \<^verbatim>\<open>InvalidRequestError\<close>, and so does the first bulk delete in an inactive
  session.
\<close>

definition Group_delete :: "session \<Rightarrow> Group \<Rightarrow> (exn + unit) \<times> session" where
  "Group_delete s self =
     (if \<not> active s then (Inl InvalidRequestError, rollback s)
      else
        (let s1 = delete_memberships
                    (Membership_query_by_group s (Inl self) False MembershipState_ACTIVE) s;
             s2 = delete_admins (GroupAdmin_query_by_group s1 self) s1;
             s3 = delete_admins (GroupAdmin_query_by_admin s2 (Group_object self)) s2
         in if Group_id self \<notin> set (map Group_id (groups (pending s3)))
            then (Inl InvalidRequestError, rollback s3)
            else
              (case commit (session_delete_group self s3) of
                 (Inr u, s') \<Rightarrow> (Inr (), send (group_deleted self) s')
               | (Inl e, s') \<Rightarrow> (Inl e, rollback s'))))"

text \<open>
  \<^verbatim>\<open>Group.update\<close>: the five conditional assignments, then commit. There is no
  exception handler: what the commit raises goes to the caller and nothing calls
  \<^verbatim>\<open>rollback\<close>.
\<close>

definition Group_assign ::
  "string option \<Rightarrow> string option \<Rightarrow> string option \<Rightarrow> string option \<Rightarrow> bool option \<Rightarrow>
   Group \<Rightarrow> Group" where
  "Group_assign name' description' privacy_policy' subscription_policy' is_managed' g =
     (let g1 = (case name' of None \<Rightarrow> g | Some n \<Rightarrow> g\<lparr>name := n\<rparr>);
          g2 = (case description' of None \<Rightarrow> g1 | Some d \<Rightarrow> g1\<lparr>description := d\<rparr>);
          g3 = (case privacy_policy' of None \<Rightarrow> g2
                | Some p \<Rightarrow> if PrivacyPolicy_validate p then g2\<lparr>privacy_policy := p\<rparr> else g2);
          g4 = (case subscription_policy' of None \<Rightarrow> g3
                | Some p \<Rightarrow>
                    if SubscriptionPolicy_validate p then g3\<lparr>subscription_policy := p\<rparr>
                    else g3)
      in (case is_managed' of None \<Rightarrow> g4 | Some b \<Rightarrow> g4\<lparr>is_managed := b\<rparr>))"

definition Group_update ::
  "session \<Rightarrow> Group \<Rightarrow> string option \<Rightarrow> string option \<Rightarrow> string option \<Rightarrow> string option \<Rightarrow>
   bool option \<Rightarrow> (exn + Group) \<times> session" where
  "Group_update s self name' description' privacy_policy' subscription_policy' is_managed' =
     (let assign = Group_assign name' description' privacy_policy' subscription_policy'
                     is_managed';
          s1 = s\<lparr>pending := (pending s)\<lparr>groups :=
                 map (\<lambda>g. if Group_id g = Group_id self then assign g else g)
                   (groups (pending s))\<rparr>\<rparr>
      in case commit s1 of
           (Inr u, s') \<Rightarrow> (Inr (assign self), s')
         | (Inl e, s') \<Rightarrow> (Inl e, s'))"

text \<open>
  \<^verbatim>\<open>Group.get_by_name\<close>: only \<^verbatim>\<open>NoResultFound\<close> becomes \<^verbatim>\<open>None\<close>.
\<close>

definition Group_get_by_name :: "session \<Rightarrow> string \<Rightarrow> exn + Group option" where
  "Group_get_by_name s n =
     (case Query_one s (filter (\<lambda>g. name g = n) (groups (pending s))) of
        Inr g \<Rightarrow> Inr (Some g)
      | Inl e \<Rightarrow> if e = NoResultFound then Inr None else Inl e)"

definition Group_add_member ::
  "session \<Rightarrow> Group \<Rightarrow> principal \<Rightarrow> string \<Rightarrow> (exn + Membership) \<times> session" where
  "Group_add_member s self user st = Membership_create s self user st"

definition Group_remove_member :: "session \<Rightarrow> Group \<Rightarrow> principal \<Rightarrow> (exn + unit) \<times> session" where
  "Group_remove_member s self user = Membership_delete s self user"

definition Group_is_admin :: "session \<Rightarrow> Group \<Rightarrow> pyobject \<Rightarrow> exn + bool" where
  "Group_is_admin s self admin =
     (case GroupAdmin_get s self admin of
        Inl e \<Rightarrow> Inl e
      | Inr ga \<Rightarrow> Inr (ga \<noteq> None))"

definition Group_is_member :: "session \<Rightarrow> Group \<Rightarrow> pyobject \<Rightarrow> bool \<Rightarrow> exn + bool" where
  "Group_is_member s self user with_pending =
     (case Membership_get s self user of
        Inl e \<Rightarrow> Inl e
      | Inr None \<Rightarrow> Inr False
      | Inr (Some m) \<Rightarrow>
          if with_pending then Inr True
          else if state m = MembershipState_ACTIVE then Inr True
          else Inr False)"

text \<open>
  \<^verbatim>\<open>Group.can_see_members\<close>: the chain has no \<^verbatim>\<open>else\<close>, so a policy outside the three
  codes gives \<^verbatim>\<open>None\<close>.
\<close>

definition Group_can_see_members :: "session \<Rightarrow> Group \<Rightarrow> pyobject \<Rightarrow> exn + bool option" where
  "Group_can_see_members s self user =
     (if privacy_policy self = PrivacyPolicy_PUBLIC then Inr (Some True)
      else if privacy_policy self = PrivacyPolicy_MEMBERS
      then map_sum id Some (Group_is_member s self user False)
      else if privacy_policy self = PrivacyPolicy_ADMINS
      then map_sum id Some (Group_is_admin s self user)
      else Inr None)"

text \<open>
  A method that returns the new \<^verbatim>\<open>Membership\<close> or \<^verbatim>\<open>None\<close>: the membership of
  \<^verbatim>\<open>add_member\<close> is returned as it is.
\<close>

definition returned :: "(exn + Membership) \<times> session \<Rightarrow> (exn + Membership option) \<times> session" where
  "returned r = (map_sum id Some (fst r), snd r)"

text \<open>
  \<^verbatim>\<open>Group.invite(user, admin=None)\<close>: the admin argument is \<^verbatim>\<open>None\<close> when omitted, or
  any other value, which goes to \<^verbatim>\<open>is_admin\<close>.
\<close>

definition Group_invite ::
  "session \<Rightarrow> Group \<Rightarrow> principal \<Rightarrow> pyobject option \<Rightarrow>
   (exn + Membership option) \<times> session" where
  "Group_invite s self user admin =
     (case admin of
        None \<Rightarrow> returned (Group_add_member s self user MembershipState_PENDING_USER)
      | Some a \<Rightarrow>
          (case Group_is_admin s self a of
             Inl e \<Rightarrow> (Inl e, s)
           | Inr b \<Rightarrow>
               if b then returned (Group_add_member s self user MembershipState_PENDING_USER)
               else (Inr None, s)))"

text \<open>
  \<^verbatim>\<open>Group.invite_by_emails\<close>: the body of the \<^verbatim>\<open>for\<close> loop returns on both of its
  paths (the invitation in the \<^verbatim>\<open>try\<close>, \<^verbatim>\<open>None\<close> in the handler of every
  exception), so the loop never reaches a second email. \<^verbatim>\<open>None\<close> passes the
  assertion and fails in the \<^verbatim>\<open>for\<close>.
\<close>

fun invite_each :: "session \<Rightarrow> Group \<Rightarrow> string list \<Rightarrow> (exn + Membership option) \<times> session" where
  "invite_each s self [] = (Inr None, s)"
| "invite_each s self (email' # rest) =
     (case Query_one s (filter (\<lambda>u. email u = email') (users (pending s))) of
        Inl e \<Rightarrow> (Inr None, s)
      | Inr user \<Rightarrow>
          (case Group_invite s self (User_object user) None of
             (Inl e, s') \<Rightarrow> (Inr None, s')
           | (Inr m, s') \<Rightarrow> (Inr m, s')))"

definition Group_invite_by_emails ::
  "session \<Rightarrow> Group \<Rightarrow> string list option \<Rightarrow> (exn + Membership option) \<times> session" where
  "Group_invite_by_emails s self emails =
     (case emails of
        None \<Rightarrow> (Inl TypeError, s)
      | Some es \<Rightarrow> invite_each s self es)"

text \<open>
  \<^verbatim>\<open>Group.subscribe\<close>: the chain has no \<^verbatim>\<open>else\<close>, so a policy outside the three
  codes gives \<^verbatim>\<open>None\<close> as \<^verbatim>\<open>CLOSED\<close> does.
\<close>

definition Group_subscribe ::
  "session \<Rightarrow> Group \<Rightarrow> principal \<Rightarrow> (exn + Membership option) \<times> session" where
  "Group_subscribe s self user =
     (if subscription_policy self = SubscriptionPolicy_OPEN
      then returned (Group_add_member s self user MembershipState_ACTIVE)
      else if subscription_policy self = SubscriptionPolicy_APPROVAL
      then returned (Group_add_member s self user MembershipState_PENDING_ADMIN)
      else if subscription_policy self = SubscriptionPolicy_CLOSED
      then (Inr None, s)
      else (Inr None, s))"

text \<open>\<^verbatim>\<open>Group.members_count\<close>: \<^verbatim>\<open>count()\<close> runs the query of \<^verbatim>\<open>query_by_group\<close>.\<close>

definition Group_members_count :: "session \<Rightarrow> Group \<Rightarrow> exn + nat" where
  "Group_members_count s self =
     (case execute s
             (Membership_query_by_group s (Inl self) False MembershipState_ACTIVE) of
        Inl e \<Rightarrow> Inl e
      | Inr found \<Rightarrow> Inr (length found))"

section \<open>Sessions and stores the theorems speak of\<close>

text \<open>
  A session is clean when its transaction is usable and holds no uncommitted write.
\<close>

definition clean :: "session \<Rightarrow> bool" where
  "clean s \<longleftrightarrow> active s \<and> pending s = committed s"

text \<open>
  The session after the membership \<open>m\<close> was inserted and committed: both stores have
  the new row, at the end of the table.
\<close>

definition joined :: "Membership \<Rightarrow> session \<Rightarrow> session" where
  "joined m s =
     s\<lparr>committed := (committed s)\<lparr>memberships := memberships (committed s) @ [m]\<rparr>,
       pending := (committed s)\<lparr>memberships := memberships (committed s) @ [m]\<rparr>\<rparr>"

text \<open>
  The store in which the membership row \<open>self\<close> has state \<^verbatim>\<open>ACTIVE\<close> and every other
  row is as before.
\<close>

definition activate :: "Membership \<Rightarrow> store \<Rightarrow> store" where
  "activate self st =
     st\<lparr>memberships :=
          map (\<lambda>m. if m = self then self\<lparr>state := MembershipState_ACTIVE\<rparr> else m)
            (memberships st)\<rparr>"

subsection \<open>An example\<close>

text \<open>
  Two users and two groups: \<open>staff\<close> is open and administered by the group \<open>board\<close>;
  \<open>board\<close> needs approval and is administered by bob. Alice is invited to \<open>staff\<close> and
  active in \<open>board\<close>; bob has asked to join \<open>staff\<close>.
\<close>

definition alice :: User where
  "alice = \<lparr>User_id = 1, email = ''alice@example.org'', nickname = ''alice''\<rparr>"

definition bob :: User where
  "bob = \<lparr>User_id = 2, email = ''bob@example.org'', nickname = ''bob''\<rparr>"

definition staff :: Group where
  "staff = \<lparr>Group_id = 1, name = ''staff'', description = '''', is_managed = False,
     privacy_policy = PrivacyPolicy_ADMINS, subscription_policy = SubscriptionPolicy_OPEN\<rparr>"

definition board :: Group where
  "board = \<lparr>Group_id = 2, name = ''board'', description = '''', is_managed = False,
     privacy_policy = PrivacyPolicy_ADMINS,
     subscription_policy = SubscriptionPolicy_APPROVAL\<rparr>"

definition example_store :: store where
  "example_store =
     \<lparr>users = [alice, bob],
      groups = [staff, board],
      memberships =
        [\<lparr>id_user = 1, id_group = 1, state = MembershipState_PENDING_USER\<rparr>,
         \<lparr>id_user = 2, id_group = 1, state = MembershipState_PENDING_ADMIN\<rparr>,
         \<lparr>id_user = 1, id_group = 2, state = MembershipState_ACTIVE\<rparr>],
      group_admins =
        [\<lparr>GroupAdmin_id = 1, group_id = 1, admin_type = ''Group'', admin_id = 2\<rparr>,
         \<lparr>GroupAdmin_id = 2, group_id = 2, admin_type = ''User'', admin_id = 2\<rparr>]\<rparr>"

definition example_session :: session where
  "example_session =
     \<lparr>committed = example_store, pending = example_store, active = True, sent = []\<rparr>"

text \<open>
  Two sessions that the operations produce from the example: the one a failed
  \<^verbatim>\<open>update\<close> leaves (\<open>board\<close> renamed to the name of \<open>staff\<close>), and the one after
  \<^verbatim>\<open>add_member\<close> with a state code outside \<^verbatim>\<open>MembershipState\<close>.
\<close>

definition failed_update_session :: session where
  "failed_update_session =
     snd (Group_update example_session board (Some ''staff'') None None None None)"

definition odd_state_session :: session where
  "odd_state_session = snd (Group_add_member example_session board (User_object bob) ''X'')"

section \<open>Facts about the store\<close>

lemmas code_consts =
  SubscriptionPolicy_OPEN_def SubscriptionPolicy_APPROVAL_def SubscriptionPolicy_CLOSED_def
  PrivacyPolicy_PUBLIC_def PrivacyPolicy_MEMBERS_def PrivacyPolicy_ADMINS_def
  MembershipState_PENDING_ADMIN_def MembershipState_PENDING_USER_def
  MembershipState_ACTIVE_def

lemmas example_defs =
  example_session_def example_store_def alice_def bob_def staff_def board_def

lemmas integrity_defs =
  integrity_def unique_keys_def foreign_keys_def membership_key_def admin_key_def

lemma le_foldr_max: "x \<in> set ids \<Longrightarrow> x \<le> foldr max ids (0::nat)"
  by (induction ids) auto

lemma next_id_fresh: "x \<in> set ids \<Longrightarrow> x < next_id ids"
  unfolding next_id_def using le_foldr_max [of x ids] by simp

lemma rollback_clean: "clean s \<Longrightarrow> rollback (s\<lparr>pending := p\<rparr>) = s"
  by (cases s) (simp add: rollback_def clean_def)

lemma rollback_after_writes:
  assumes "clean s" and "committed s' = committed s" and "sent s' = sent s"
  shows "rollback s' = s"
  using assms by (intro session.equality) (simp_all add: rollback_def clean_def)

lemma example_session_clean: "clean example_session"
  by (simp add: clean_def example_session_def)

lemma example_store_integrity: "integrity (committed example_session)"
  by (simp add: example_defs integrity_defs)

lemma integrity_add_membership:
  assumes "integrity st"
    and "id_user m \<in> set (map User_id (users st))"
    and "id_group m \<in> set (map Group_id (groups st))"
    and "membership_key m \<notin> set (map membership_key (memberships st))"
  shows "integrity (st\<lparr>memberships := memberships st @ [m]\<rparr>)"
  using assms by (auto simp: integrity_def unique_keys_def foreign_keys_def)

lemma no_integrity_dup_membership:
  assumes "membership_key m \<in> set (map membership_key (memberships st))"
  shows "\<not> integrity (st\<lparr>memberships := memberships st @ [m]\<rparr>)"
  using assms by (auto simp: integrity_def unique_keys_def)

subsection \<open>Membership.create\<close>

lemma Membership_create_new:
  assumes "clean s" and "integrity (committed s)"
    and "get_id user \<in> set (map User_id (users (committed s)))"
    and "Group_id grp \<in> set (map Group_id (groups (committed s)))"
    and "(get_id user, Group_id grp) \<notin> set (map membership_key (memberships (committed s)))"
  shows "Membership_create s grp user st =
    (Inr \<lparr>id_user = get_id user, id_group = Group_id grp, state = st\<rparr>,
     joined \<lparr>id_user = get_id user, id_group = Group_id grp, state = st\<rparr> s)"
proof -
  let ?m = "\<lparr>id_user = get_id user, id_group = Group_id grp, state = st\<rparr>"
  have "integrity ((committed s)\<lparr>memberships := memberships (committed s) @ [?m]\<rparr>)"
    using assms(2-5) by (intro integrity_add_membership) (simp_all add: membership_key_def)
  then show ?thesis
    using assms(1)
    by (simp add: Membership_create_def session_add_membership_def commit_def clean_def
        joined_def Let_def)
qed

lemma Membership_create_dup:
  assumes "clean s"
    and "(get_id user, Group_id grp) \<in> set (map membership_key (memberships (committed s)))"
  shows "Membership_create s grp user st = (Inl IntegrityError, s)"
proof -
  let ?m = "\<lparr>id_user = get_id user, id_group = Group_id grp, state = st\<rparr>"
  have "\<not> integrity ((committed s)\<lparr>memberships := memberships (committed s) @ [?m]\<rparr>)"
    using assms(2) by (intro no_integrity_dup_membership) (simp add: membership_key_def)
  moreover have "rollback (s\<lparr>pending := p, pending := committed s, active := False\<rparr>) = s"
    for p
    using assms(1) by (intro rollback_after_writes) simp_all
  ultimately show ?thesis
    using assms(1)
    by (simp add: Membership_create_def session_add_membership_def commit_def clean_def
        Let_def)
qed

lemma add_member_cases:
  assumes "clean s" and "integrity (committed s)"
    and "get_id user \<in> set (map User_id (users (committed s)))"
    and "Group_id self \<in> set (map Group_id (groups (committed s)))"
  shows "returned (Group_add_member s self user st) =
    (if (get_id user, Group_id self) \<in> set (map membership_key (memberships (committed s)))
     then (Inl IntegrityError, s)
     else (Inr (Some \<lparr>id_user = get_id user, id_group = Group_id self, state = st\<rparr>),
           joined \<lparr>id_user = get_id user, id_group = Group_id self, state = st\<rparr> s))"
proof (cases "(get_id user, Group_id self) \<in> set (map membership_key (memberships (committed s)))")
  case True
  then show ?thesis
    using Membership_create_dup [OF assms(1), of user self st]
    by (simp add: Group_add_member_def returned_def)
next
  case False
  then show ?thesis
    using Membership_create_new [OF assms, of st]
    by (simp add: Group_add_member_def returned_def)
qed

section \<open>Group.subscribe\<close>

text \<open>
  C1, as stated, fails: \<open>staff\<close> is open, and alice, who holds an invitation to it,
  subscribes. \<^verbatim>\<open>Membership.create\<close> hits the primary key of the existing row, rolls
  back and raises \<^verbatim>\<open>IntegrityError\<close>; no \<^verbatim>\<open>ACTIVE\<close> membership of alice exists
  afterwards.
\<close>

theorem Group_subscribe_existing_row:
  "subscription_policy staff = SubscriptionPolicy_OPEN \<and>
   Group_subscribe example_session staff (User_object alice) =
     (Inl IntegrityError, example_session) \<and>
   \<lparr>id_user = 1, id_group = 1, state = MembershipState_ACTIVE\<rparr>
     \<notin> set (memberships (committed example_session))"
  by (simp add: example_defs Group_subscribe_def Group_add_member_def Membership_create_def
      session_add_membership_def commit_def rollback_def returned_def integrity_defs
      code_consts Let_def)

text \<open>
  C1, amended: in a clean session whose store keeps its constraints, for a user and a
  group that have rows, \<^verbatim>\<open>subscribe\<close> follows the subscription policy. Under \<^verbatim>\<open>OPEN\<close>
  it inserts the membership in state \<^verbatim>\<open>ACTIVE\<close> and under \<^verbatim>\<open>APPROVAL\<close> in state
  \<^verbatim>\<open>PENDING_ADMIN\<close>, and returns it, when the pair (user, group) has no row yet; when
  it has one, the call raises \<^verbatim>\<open>IntegrityError\<close> and the session is as before. Under
  \<^verbatim>\<open>CLOSED\<close> (and any other code) nothing is written and \<^verbatim>\<open>None\<close> is returned.
\<close>

theorem Group_subscribe_policy:
  assumes "clean s" and "integrity (committed s)"
    and "get_id user \<in> set (map User_id (users (committed s)))"
    and "Group_id self \<in> set (map Group_id (groups (committed s)))"
  shows "Group_subscribe s self user =
    (if subscription_policy self = SubscriptionPolicy_OPEN \<or>
        subscription_policy self = SubscriptionPolicy_APPROVAL
     then
       (let m = \<lparr>id_user = get_id user, id_group = Group_id self,
                  state = (if subscription_policy self = SubscriptionPolicy_OPEN
                           then MembershipState_ACTIVE
                           else MembershipState_PENDING_ADMIN)\<rparr>
        in if (get_id user, Group_id self)
                \<in> set (map membership_key (memberships (committed s)))
           then (Inl IntegrityError, s)
           else (Inr (Some m), joined m s))
     else (Inr None, s))"
proof -
  consider (opn) "subscription_policy self = SubscriptionPolicy_OPEN"
    | (appr) "subscription_policy self \<noteq> SubscriptionPolicy_OPEN"
        "subscription_policy self = SubscriptionPolicy_APPROVAL"
    | (other) "subscription_policy self \<noteq> SubscriptionPolicy_OPEN"
        "subscription_policy self \<noteq> SubscriptionPolicy_APPROVAL"
    by blast
  then show ?thesis
  proof cases
    case opn
    then show ?thesis
      using add_member_cases [OF assms, of MembershipState_ACTIVE]
      by (simp add: Group_subscribe_def Let_def)
  next
    case appr
    then show ?thesis
      using add_member_cases [OF assms, of MembershipState_PENDING_ADMIN]
      by (simp add: Group_subscribe_def Let_def)
  next
    case other
    then show ?thesis
      by (simp add: Group_subscribe_def)
  qed
qed

theorem Group_subscribe_policy_witness:
  "clean example_session \<and> integrity (committed example_session) \<and>
   Group_subscribe example_session board (User_object bob) =
     (Inr (Some \<lparr>id_user = 2, id_group = 2, state = MembershipState_PENDING_ADMIN\<rparr>),
      joined \<lparr>id_user = 2, id_group = 2, state = MembershipState_PENDING_ADMIN\<rparr>
        example_session) \<and>
   Group_subscribe example_session staff (User_object bob) =
     (Inl IntegrityError, example_session)"
proof -
  have b: "Group_subscribe example_session board (User_object bob) =
     (Inr (Some \<lparr>id_user = 2, id_group = 2, state = MembershipState_PENDING_ADMIN\<rparr>),
      joined \<lparr>id_user = 2, id_group = 2, state = MembershipState_PENDING_ADMIN\<rparr>
        example_session)"
    using Group_subscribe_policy [OF example_session_clean example_store_integrity,
        of "User_object bob" board]
    by (simp add: example_defs membership_key_def code_consts Let_def)
  have a: "Group_subscribe example_session staff (User_object bob) =
     (Inl IntegrityError, example_session)"
    using Group_subscribe_policy [OF example_session_clean example_store_integrity,
        of "User_object bob" staff]
    by (simp add: example_defs membership_key_def code_consts Let_def)
  from a b show ?thesis
    using example_session_clean example_store_integrity by simp
qed

section \<open>Group.members_count\<close>

text \<open>
  C2, as stated, fails: \<open>staff\<close> has two membership rows, an invitation and a request,
  and \<^verbatim>\<open>members_count\<close> is 0.
\<close>

theorem Group_members_count_pending_rows:
  "Group_members_count example_session staff = Inr 0 \<and>
   length (filter (\<lambda>m. id_group m = Group_id staff)
             (memberships (pending example_session))) = 2"
  by (simp add: example_defs Group_members_count_def Membership_query_by_group_def
      Membership_filter_def execute_def code_consts)

text \<open>
  C2, amended: \<^verbatim>\<open>members_count\<close> is the number of the group's membership rows in
  state \<^verbatim>\<open>ACTIVE\<close>: \<^verbatim>\<open>query_by_group\<close> is called with its defaults, and \<^verbatim>\<open>_filter\<close>
  keeps the rows of its default state. Rows in \<^verbatim>\<open>PENDING_ADMIN\<close> and
  \<^verbatim>\<open>PENDING_USER\<close> are not counted. This holds in every session that can run a
  statement; in an inactive one the count raises \<^verbatim>\<open>InvalidRequestError\<close>, as every
  statement does.
\<close>

theorem Group_members_count_active:
  "Group_members_count s self =
     (if active s
      then Inr (length (filter (\<lambda>m. id_group m = Group_id self \<and>
                                    state m = MembershipState_ACTIVE)
                          (memberships (pending s))))
      else Inl InvalidRequestError)"
  by (simp add: Group_members_count_def Membership_query_by_group_def Membership_filter_def
      execute_def conj_commute)

section \<open>Group.invite\<close>

lemma Group_is_admin_total:
  "Group_is_admin s self admin = Inr (GroupAdmin_get s self admin \<noteq> Inr None)"
  by (simp add: Group_is_admin_def GroupAdmin_get_def split: sum.splits)

text \<open>
  C8, as stated, fails: with the admin argument omitted, inviting alice to \<open>staff\<close>,
  where she already has a row, creates no membership: \<^verbatim>\<open>Membership.create\<close> rolls back
  and raises \<^verbatim>\<open>IntegrityError\<close>.
\<close>

theorem Group_invite_existing_row:
  "Group_invite example_session staff (User_object alice) None =
     (Inl IntegrityError, example_session)"
  by (simp add: example_defs Group_invite_def Group_add_member_def Membership_create_def
      session_add_membership_def commit_def rollback_def returned_def integrity_defs
      code_consts Let_def)

text \<open>
  C8, amended: in a clean session whose store keeps its constraints, for a user and a
  group that have rows, \<^verbatim>\<open>invite(user, admin)\<close> calls \<^verbatim>\<open>Membership.create\<close> with
  state \<^verbatim>\<open>PENDING_USER\<close> exactly when the admin argument is omitted or \<^verbatim>\<open>is_admin\<close>
  holds for it. That call inserts and returns the membership when the pair
  (user, group) has no row yet, and raises \<^verbatim>\<open>IntegrityError\<close>, the session as
  before, when it has one. When the admin is given and is not an admin of the group,
  nothing is written, nothing is raised and \<^verbatim>\<open>None\<close> is returned.
\<close>

theorem Group_invite_admin_gate:
  assumes "clean s" and "integrity (committed s)"
    and "get_id user \<in> set (map User_id (users (committed s)))"
    and "Group_id self \<in> set (map Group_id (groups (committed s)))"
  shows "Group_invite s self user admin =
    (if (case admin of None \<Rightarrow> True | Some a \<Rightarrow> Group_is_admin s self a = Inr True)
     then
       (let m = \<lparr>id_user = get_id user, id_group = Group_id self,
                  state = MembershipState_PENDING_USER\<rparr>
        in if (get_id user, Group_id self)
                \<in> set (map membership_key (memberships (committed s)))
           then (Inl IntegrityError, s)
           else (Inr (Some m), joined m s))
     else (Inr None, s))"
proof (cases admin)
  case None
  then show ?thesis
    using add_member_cases [OF assms, of MembershipState_PENDING_USER]
    by (simp add: Group_invite_def Let_def)
next
  case (Some a)
  then show ?thesis
    using add_member_cases [OF assms, of MembershipState_PENDING_USER]
    by (simp add: Group_invite_def Group_is_admin_total Let_def)
qed

theorem Group_invite_admin_gate_witness:
  "clean example_session \<and> integrity (committed example_session) \<and>
   Group_is_admin example_session board (Principal (User_object bob)) = Inr True \<and>
   Group_invite example_session board (User_object bob) (Some (Principal (User_object bob))) =
     (Inr (Some \<lparr>id_user = 2, id_group = 2, state = MembershipState_PENDING_USER\<rparr>),
      joined \<lparr>id_user = 2, id_group = 2, state = MembershipState_PENDING_USER\<rparr>
        example_session) \<and>
   Group_is_admin example_session board (Principal (User_object alice)) = Inr False \<and>
   Group_invite example_session board (User_object bob) (Some (Principal (User_object alice))) =
     (Inr None, example_session)"
proof -
  have adm: "Group_is_admin example_session board (Principal (User_object bob)) = Inr True"
    "Group_is_admin example_session board (Principal (User_object alice)) = Inr False"
    by (simp_all add: example_defs Group_is_admin_def GroupAdmin_get_def GroupAdmin_lookup_def
        Query_one_def execute_def)
  have yes: "Group_invite example_session board (User_object bob) (Some (Principal (User_object bob))) =
     (Inr (Some \<lparr>id_user = 2, id_group = 2, state = MembershipState_PENDING_USER\<rparr>),
      joined \<lparr>id_user = 2, id_group = 2, state = MembershipState_PENDING_USER\<rparr>
        example_session)"
    using Group_invite_admin_gate [OF example_session_clean example_store_integrity,
        of "User_object bob" board "Some (Principal (User_object bob))"] adm
    by (simp add: example_defs membership_key_def Let_def)
  have no: "Group_invite example_session board (User_object bob) (Some (Principal (User_object alice))) =
     (Inr None, example_session)"
    using Group_invite_admin_gate [OF example_session_clean example_store_integrity,
        of "User_object bob" board "Some (Principal (User_object alice))"] adm
    by (simp add: example_defs membership_key_def Let_def)
  from adm yes no show ?thesis
    using example_session_clean example_store_integrity by simp
qed

section \<open>The lookups Membership.get and GroupAdmin.get\<close>

lemma failed_update_session_eq: "failed_update_session = example_session\<lparr>active := False\<rparr>"
  by (simp add: failed_update_session_def Group_update_def Group_assign_def commit_def
      integrity_defs example_defs Let_def)

lemma odd_state_session_eq:
  "odd_state_session = joined \<lparr>id_user = 2, id_group = 2, state = ''X''\<rparr> example_session"
  by (simp add: odd_state_session_def Group_add_member_def Membership_create_def
      session_add_membership_def commit_def joined_def integrity_defs example_defs Let_def)

text \<open>
  C10: \<^verbatim>\<open>Membership.get\<close> and \<^verbatim>\<open>GroupAdmin.get\<close> never raise, for any session, group
  and value passed. Whatever the \<^verbatim>\<open>try\<close> block raises, the result is \<^verbatim>\<open>None\<close>:
  \<^verbatim>\<open>AttributeError\<close> from \<^verbatim>\<open>get_id()\<close> on a value without that method,
  \<^verbatim>\<open>InvalidRequestError\<close> from the statement in an inactive session, \<^verbatim>\<open>KeyError\<close>
  from loading a row whose state code is no key of \<^verbatim>\<open>MEMBERSHIP_STATE\<close>, and
  \<^verbatim>\<open>NoResultFound\<close> or \<^verbatim>\<open>MultipleResultsFound\<close> from \<^verbatim>\<open>one()\<close>. So \<^verbatim>\<open>is_member\<close> and
  \<^verbatim>\<open>is_admin\<close> return a boolean and raise nothing; where the lookup failed, the
  boolean is \<^verbatim>\<open>False\<close>, whether or not a matching row is stored.
\<close>

theorem lookups_never_raise:
  "(\<exists>r. Membership_get s grp user = Inr r) \<and>
   (\<exists>r. GroupAdmin_get s grp admin = Inr r) \<and>
   (\<forall>e. Membership_lookup s grp user = Inl e \<longrightarrow>
        Membership_get s grp user = Inr None \<and>
        Group_is_member s grp user with_pending = Inr False) \<and>
   (\<forall>e. GroupAdmin_lookup s grp admin = Inl e \<longrightarrow>
        GroupAdmin_get s grp admin = Inr None \<and> Group_is_admin s grp admin = Inr False) \<and>
   Membership_lookup s grp Other_value = Inl AttributeError \<and>
   GroupAdmin_lookup s grp Other_value = Inl AttributeError \<and>
   (\<not> active s \<longrightarrow>
      Membership_lookup s grp (Principal u) = Inl InvalidRequestError \<and>
      GroupAdmin_lookup s grp (Principal u) = Inl InvalidRequestError) \<and>
   (\<exists>b. Group_is_member s grp user with_pending = Inr b) \<and>
   (\<exists>b. Group_is_admin s grp admin = Inr b)"
proof (intro conjI allI impI)
  show "\<exists>r. Membership_get s grp user = Inr r"
    by (simp add: Membership_get_def split: sum.splits)
  show "\<exists>r. GroupAdmin_get s grp admin = Inr r"
    by (simp add: GroupAdmin_get_def split: sum.splits)
  show "\<exists>b. Group_is_member s grp user with_pending = Inr b"
    by (auto simp: Group_is_member_def Membership_get_def split: sum.splits option.splits)
  show "\<exists>b. Group_is_admin s grp admin = Inr b"
    by (simp add: Group_is_admin_total)
  show "Membership_lookup s grp Other_value = Inl AttributeError"
    by (simp add: Membership_lookup_def)
  show "GroupAdmin_lookup s grp Other_value = Inl AttributeError"
    by (simp add: GroupAdmin_lookup_def)
next
  fix e
  assume failed: "Membership_lookup s grp user = Inl e"
  then show "Membership_get s grp user = Inr None"
    by (simp add: Membership_get_def)
  from failed show "Group_is_member s grp user with_pending = Inr False"
    by (simp add: Group_is_member_def Membership_get_def)
next
  fix e
  assume failed: "GroupAdmin_lookup s grp admin = Inl e"
  then show "GroupAdmin_get s grp admin = Inr None"
    by (simp add: GroupAdmin_get_def)
  from failed show "Group_is_admin s grp admin = Inr False"
    by (simp add: Group_is_admin_def GroupAdmin_get_def)
next
  assume "\<not> active s"
  then show "Membership_lookup s grp (Principal u) = Inl InvalidRequestError"
    by (simp add: Membership_lookup_def execute_def)
  from \<open>\<not> active s\<close> show "GroupAdmin_lookup s grp (Principal u) = Inl InvalidRequestError"
    by (simp add: GroupAdmin_lookup_def Query_one_def execute_def)
qed

text \<open>
  The witness takes two sessions that the operations themselves produce. In the
  session left by the failed \<^verbatim>\<open>update\<close>, alice's row for \<open>staff\<close> and bob's admin row
  for \<open>board\<close> are stored, and both lookups give \<^verbatim>\<open>None\<close>. In the session after
  \<^verbatim>\<open>add_member\<close> with the state code X, bob's row for \<open>board\<close> is stored and cannot be
  loaded.
\<close>

theorem lookups_never_raise_witness:
  "\<lparr>id_user = 1, id_group = 1, state = MembershipState_PENDING_USER\<rparr>
     \<in> set (memberships (pending failed_update_session)) \<and>
   Membership_lookup failed_update_session staff (Principal (User_object alice)) =
     Inl InvalidRequestError \<and>
   Membership_get failed_update_session staff (Principal (User_object alice)) = Inr None \<and>
   Group_is_member failed_update_session staff (Principal (User_object alice)) True =
     Inr False \<and>
   Group_is_admin example_session board (Principal (User_object bob)) = Inr True \<and>
   Group_is_admin failed_update_session board (Principal (User_object bob)) = Inr False \<and>
   \<lparr>id_user = 2, id_group = 2, state = ''X''\<rparr>
     \<in> set (memberships (pending odd_state_session)) \<and>
   Membership_lookup odd_state_session board (Principal (User_object bob)) = Inl KeyError \<and>
   Membership_get odd_state_session board (Principal (User_object bob)) = Inr None \<and>
   Group_is_member odd_state_session board (Principal (User_object bob)) True = Inr False \<and>
   Membership_get example_session staff Other_value = Inr None"
proof -
  have inactive: "\<not> active failed_update_session"
    by (simp add: failed_update_session_eq)
  have stored: "\<lparr>id_user = 1, id_group = 1, state = MembershipState_PENDING_USER\<rparr>
     \<in> set (memberships (pending failed_update_session))"
    by (simp add: failed_update_session_eq example_defs)
  have odd: "\<lparr>id_user = 2, id_group = 2, state = ''X''\<rparr>
     \<in> set (memberships (pending odd_state_session))"
    by (simp add: odd_state_session_eq joined_def)
  have key: "Membership_lookup odd_state_session board (Principal (User_object bob)) =
      Inl KeyError"
    by (simp add: odd_state_session_eq joined_def Membership_lookup_def execute_def
        load_memberships_def state_loads_def example_defs code_consts)
  have adm: "Group_is_admin example_session board (Principal (User_object bob)) = Inr True"
    by (simp add: example_defs Group_is_admin_def GroupAdmin_get_def GroupAdmin_lookup_def
        Query_one_def execute_def)
  note a = lookups_never_raise [of failed_update_session staff "Principal (User_object alice)"
      "Principal (User_object alice)" True "User_object alice"]
  note b = lookups_never_raise [of failed_update_session board "Principal (User_object bob)"
      "Principal (User_object bob)" True "User_object bob"]
  note c = lookups_never_raise [of odd_state_session board "Principal (User_object bob)"
      "Principal (User_object bob)" True "User_object bob"]
  note d = lookups_never_raise [of example_session staff Other_value Other_value True
      "User_object alice"]
  from a inactive have "Membership_lookup failed_update_session staff
      (Principal (User_object alice)) = Inl InvalidRequestError"
    "Membership_get failed_update_session staff (Principal (User_object alice)) = Inr None"
    "Group_is_member failed_update_session staff (Principal (User_object alice)) True =
       Inr False"
    by simp_all
  moreover from b inactive
  have "Group_is_admin failed_update_session board (Principal (User_object bob)) = Inr False"
    by simp
  moreover from c key
  have "Membership_get odd_state_session board (Principal (User_object bob)) = Inr None"
    "Group_is_member odd_state_session board (Principal (User_object bob)) True = Inr False"
    by simp_all
  moreover from d have "Membership_get example_session staff Other_value = Inr None"
    by simp
  ultimately show ?thesis
    using stored odd key adm by simp
qed

section \<open>Membership.query_requests\<close>

text \<open>
  C7: \<^verbatim>\<open>query_requests(admin)\<close> returns, each once, exactly the membership rows in
  state \<^verbatim>\<open>PENDING_ADMIN\<close> whose group has an admin row that names the admin directly
  (by resolved type and identifier) or names, with \<^verbatim>\<open>admin_type\<close> Group, a group in
  which the admin has an \<^verbatim>\<open>ACTIVE\<close> membership. In particular, when \<open>g2\<close> is an
  admin of \<open>g1\<close> and the user is an active member of \<open>g2\<close>, every pending request on
  \<open>g1\<close> is among the rows returned.
\<close>

theorem Membership_query_requests_exact:
  "distinct (Membership_query_requests s admin) \<and>
   set (Membership_query_requests s admin) =
     {m \<in> set (memberships (pending s)).
        state m = MembershipState_PENDING_ADMIN \<and>
        (\<exists>a \<in> set (group_admins (pending s)).
           group_id a = id_group m \<and>
           (admin_type a = resolve_admin_type admin \<and> admin_id a = get_id admin \<or>
            admin_type a = ''Group'' \<and>
            (\<exists>m' \<in> set (memberships (pending s)).
               id_user m' = get_id admin \<and> state m' = MembershipState_ACTIVE \<and>
               id_group m' = admin_id a)))} \<and>
   (\<forall>a \<in> set (group_admins (pending s)).
    \<forall>m' \<in> set (memberships (pending s)).
    \<forall>m \<in> set (memberships (pending s)).
      group_id a = g1 \<and> admin_type a = ''Group'' \<and> admin_id a = g2 \<and>
      id_user m' = get_id admin \<and> id_group m' = g2 \<and> state m' = MembershipState_ACTIVE \<and>
      id_group m = g1 \<and> state m = MembershipState_PENDING_ADMIN
      \<longrightarrow> m \<in> set (Membership_query_requests s admin))"
proof -
  have eq: "set (Membership_query_requests s admin) =
     {m \<in> set (memberships (pending s)).
        state m = MembershipState_PENDING_ADMIN \<and>
        (\<exists>a \<in> set (group_admins (pending s)).
           group_id a = id_group m \<and>
           (admin_type a = resolve_admin_type admin \<and> admin_id a = get_id admin \<or>
            admin_type a = ''Group'' \<and>
            (\<exists>m' \<in> set (memberships (pending s)).
               id_user m' = get_id admin \<and> state m' = MembershipState_ACTIVE \<and>
               id_group m' = admin_id a)))}"
    unfolding Membership_query_requests_def GroupAdmin_query_by_admin_def
      Membership_query_by_user_def Membership_filter_def Let_def
    by (auto simp: image_iff) metis+
  have "distinct (Membership_query_requests s admin)"
    by (simp add: Membership_query_requests_def Let_def)
  moreover have "\<forall>a \<in> set (group_admins (pending s)).
    \<forall>m' \<in> set (memberships (pending s)).
    \<forall>m \<in> set (memberships (pending s)).
      group_id a = g1 \<and> admin_type a = ''Group'' \<and> admin_id a = g2 \<and>
      id_user m' = get_id admin \<and> id_group m' = g2 \<and> state m' = MembershipState_ACTIVE \<and>
      id_group m = g1 \<and> state m = MembershipState_PENDING_ADMIN
      \<longrightarrow> m \<in> set (Membership_query_requests s admin)"
  proof (intro ballI impI)
    fix a m' m
    assume a: "a \<in> set (group_admins (pending s))"
      and m': "m' \<in> set (memberships (pending s))"
      and m: "m \<in> set (memberships (pending s))"
      and h: "group_id a = g1 \<and> admin_type a = ''Group'' \<and> admin_id a = g2 \<and>
        id_user m' = get_id admin \<and> id_group m' = g2 \<and> state m' = MembershipState_ACTIVE \<and>
        id_group m = g1 \<and> state m = MembershipState_PENDING_ADMIN"
    from a m' h have "\<exists>a \<in> set (group_admins (pending s)).
           group_id a = id_group m \<and>
           (admin_type a = resolve_admin_type admin \<and> admin_id a = get_id admin \<or>
            admin_type a = ''Group'' \<and>
            (\<exists>m' \<in> set (memberships (pending s)).
               id_user m' = get_id admin \<and> state m' = MembershipState_ACTIVE \<and>
               id_group m' = admin_id a))"
      by (intro bexI [of _ a]) auto
    with m h show "m \<in> set (Membership_query_requests s admin)"
      unfolding eq by simp
  qed
  ultimately show ?thesis
    using eq by blast
qed

theorem Membership_query_requests_exact_witness:
  "Membership_query_requests example_session (User_object alice) =
     [\<lparr>id_user = 2, id_group = 1, state = MembershipState_PENDING_ADMIN\<rparr>] \<and>
   \<lparr>id_user = 2, id_group = 1, state = MembershipState_PENDING_ADMIN\<rparr>
     \<in> set (Membership_query_requests example_session (User_object alice))"
proof -
  have "\<lparr>id_user = 2, id_group = 1, state = MembershipState_PENDING_ADMIN\<rparr>
     \<in> set (Membership_query_requests example_session (User_object alice))"
    using Membership_query_requests_exact [of example_session "User_object alice" 1 2]
    by (simp add: example_defs code_consts)
  moreover have "Membership_query_requests example_session (User_object alice) =
     [\<lparr>id_user = 2, id_group = 1, state = MembershipState_PENDING_ADMIN\<rparr>]"
    by (simp add: example_defs code_consts Membership_query_requests_def
        GroupAdmin_query_by_admin_def Membership_query_by_user_def Membership_filter_def)
  ultimately show ?thesis by simp
qed

section \<open>Membership.accept\<close>

lemma key_identifies_row:
  assumes "integrity st" and "self \<in> set (memberships st)" and "m \<in> set (memberships st)"
  shows "membership_key m = membership_key self \<longleftrightarrow> m = self"
proof -
  have "inj_on membership_key (set (memberships st))"
    using assms(1) by (simp add: integrity_def unique_keys_def distinct_map)
  then show ?thesis
    using assms(2,3) by (auto dest: inj_onD)
qed

lemma integrity_set_state:
  assumes "integrity st"
  shows "integrity (st\<lparr>memberships :=
           map (\<lambda>m. if membership_key m = k then m\<lparr>state := a\<rparr> else m) (memberships st)\<rparr>)"
proof -
  let ?f = "\<lambda>m. if membership_key m = k then m\<lparr>state := a\<rparr> else m"
  have key: "map membership_key (map ?f ms) = map membership_key ms" for ms
    by (induction ms) (simp_all add: membership_key_def)
  have fk: "list_all (\<lambda>m. id_user m \<in> U \<and> id_group m \<in> G) (map ?f ms) =
      list_all (\<lambda>m. id_user m \<in> U \<and> id_group m \<in> G) ms" for ms U G
    by (induction ms) simp_all
  have "unique_keys (st\<lparr>memberships := map ?f (memberships st)\<rparr>)"
    using assms unfolding integrity_def unique_keys_def
    by (simp add: key del: map_map)
  moreover have "foreign_keys (st\<lparr>memberships := map ?f (memberships st)\<rparr>)"
    using assms unfolding integrity_def foreign_keys_def
    by (simp add: fk del: list.pred_map)
  ultimately show ?thesis
    by (simp add: integrity_def)
qed

lemma Membership_accept_clean:
  assumes "clean s" and "integrity (committed s)"
    and "self \<in> set (memberships (committed s))"
  shows "Membership_accept s self =
           (Inr (), s\<lparr>committed := activate self (committed s),
                      pending := activate self (committed s)\<rparr>)"
    and "integrity (activate self (committed s))"
proof -
  let ?f = "\<lambda>m. if membership_key m = membership_key self
                 then m\<lparr>state := MembershipState_ACTIVE\<rparr> else m"
  have same: "map ?f (memberships (committed s)) =
      map (\<lambda>m. if m = self then self\<lparr>state := MembershipState_ACTIVE\<rparr> else m)
        (memberships (committed s))"
    using key_identifies_row [OF assms(2,3)] by (intro map_cong) auto
  have ok: "integrity ((committed s)\<lparr>memberships := map ?f (memberships (committed s))\<rparr>)"
    using assms(2) by (rule integrity_set_state)
  then show "integrity (activate self (committed s))"
    by (simp add: activate_def same)
  from ok show "Membership_accept s self =
           (Inr (), s\<lparr>committed := activate self (committed s),
                      pending := activate self (committed s)\<rparr>)"
    using assms(1) by (simp add: Membership_accept_def commit_def clean_def activate_def same)
qed

lemma activate_row:
  assumes "self \<in> set (memberships st)"
  shows "self\<lparr>state := MembershipState_ACTIVE\<rparr> \<in> set (memberships (activate self st))"
  using assms by (force simp: activate_def)

lemma activate_twice:
  "activate (self\<lparr>state := MembershipState_ACTIVE\<rparr>) (activate self st) = activate self st"
proof -
  have "map (\<lambda>m. if m = self\<lparr>state := MembershipState_ACTIVE\<rparr>
               then self\<lparr>state := MembershipState_ACTIVE\<rparr> else m) ms = ms" for ms
    by (induction ms) auto
  then show ?thesis
    by (simp add: activate_def)
qed

text \<open>
  C9: in a clean session whose store keeps its constraints, \<^verbatim>\<open>accept()\<close> on a
  membership row, whatever its state (\<^verbatim>\<open>PENDING_USER\<close>, \<^verbatim>\<open>PENDING_ADMIN\<close> or
  \<^verbatim>\<open>ACTIVE\<close>), commits the store in which that row has state \<^verbatim>\<open>ACTIVE\<close> and every
  other row is as before; no row gets any other state. A second \<^verbatim>\<open>accept()\<close> succeeds
  and changes nothing.
\<close>

theorem Membership_accept_activates:
  assumes "clean s" and "integrity (committed s)"
    and "self \<in> set (memberships (committed s))"
  shows "Membership_accept s self =
           (Inr (), s\<lparr>committed := activate self (committed s),
                      pending := activate self (committed s)\<rparr>) \<and>
         self\<lparr>state := MembershipState_ACTIVE\<rparr>
           \<in> set (memberships (activate self (committed s))) \<and>
         (\<forall>m \<in> set (memberships (activate self (committed s))).
            m \<in> set (memberships (committed s)) \<or>
            m = self\<lparr>state := MembershipState_ACTIVE\<rparr>) \<and>
         Membership_accept
           (s\<lparr>committed := activate self (committed s),
              pending := activate self (committed s)\<rparr>)
           (self\<lparr>state := MembershipState_ACTIVE\<rparr>) =
           (Inr (), s\<lparr>committed := activate self (committed s),
                      pending := activate self (committed s)\<rparr>)"
proof -
  let ?st = "activate self (committed s)"
  let ?s = "s\<lparr>committed := ?st, pending := ?st\<rparr>"
  let ?self = "self\<lparr>state := MembershipState_ACTIVE\<rparr>"
  note first = Membership_accept_clean [OF assms]
  have row: "?self \<in> set (memberships ?st)"
    using assms(3) by (rule activate_row)
  have only: "\<forall>m \<in> set (memberships ?st). m \<in> set (memberships (committed s)) \<or> m = ?self"
    by (auto simp: activate_def)
  have "clean ?s" "integrity (committed ?s)" "?self \<in> set (memberships (committed ?s))"
    using first(2) row assms(1) by (simp_all add: clean_def)
  from Membership_accept_clean(1) [OF this]
  have "Membership_accept ?s ?self = (Inr (), ?s)"
    by (simp add: activate_twice)
  with first(1) row only show ?thesis
    by simp
qed

theorem Membership_accept_activates_witness:
  "clean example_session \<and> integrity (committed example_session) \<and>
   Membership_accept example_session
       \<lparr>id_user = 1, id_group = 1, state = MembershipState_PENDING_USER\<rparr> =
     (Inr (),
      example_session
        \<lparr>committed := example_store\<lparr>memberships :=
           [\<lparr>id_user = 1, id_group = 1, state = MembershipState_ACTIVE\<rparr>,
            \<lparr>id_user = 2, id_group = 1, state = MembershipState_PENDING_ADMIN\<rparr>,
            \<lparr>id_user = 1, id_group = 2, state = MembershipState_ACTIVE\<rparr>]\<rparr>,
         pending := example_store\<lparr>memberships :=
           [\<lparr>id_user = 1, id_group = 1, state = MembershipState_ACTIVE\<rparr>,
            \<lparr>id_user = 2, id_group = 1, state = MembershipState_PENDING_ADMIN\<rparr>,
            \<lparr>id_user = 1, id_group = 2, state = MembershipState_ACTIVE\<rparr>]\<rparr>\<rparr>)"
proof -
  have row: "\<lparr>id_user = 1, id_group = 1, state = MembershipState_PENDING_USER\<rparr>
      \<in> set (memberships (committed example_session))"
    by (simp add: example_defs code_consts)
  have act: "activate \<lparr>id_user = 1, id_group = 1, state = MembershipState_PENDING_USER\<rparr>
      (committed example_session) =
      example_store\<lparr>memberships :=
           [\<lparr>id_user = 1, id_group = 1, state = MembershipState_ACTIVE\<rparr>,
            \<lparr>id_user = 2, id_group = 1, state = MembershipState_PENDING_ADMIN\<rparr>,
            \<lparr>id_user = 1, id_group = 2, state = MembershipState_ACTIVE\<rparr>]\<rparr>"
    by (simp add: activate_def example_defs code_consts)
  have "Membership_accept example_session
       \<lparr>id_user = 1, id_group = 1, state = MembershipState_PENDING_USER\<rparr> =
     (Inr (),
      example_session
        \<lparr>committed := activate
           \<lparr>id_user = 1, id_group = 1, state = MembershipState_PENDING_USER\<rparr>
           (committed example_session),
         pending := activate
           \<lparr>id_user = 1, id_group = 1, state = MembershipState_PENDING_USER\<rparr>
           (committed example_session)\<rparr>)"
    using Membership_accept_activates [OF example_session_clean example_store_integrity row]
    by (rule conjunct1)
  then show ?thesis
    unfolding act using example_session_clean example_store_integrity by simp
qed

section \<open>Group.delete\<close>

lemma filter_not_selected: "filter (\<lambda>x. x \<notin> set (filter P xs)) xs = filter (\<lambda>x. \<not> P x) xs"
  by (rule filter_cong) auto

lemma filter_by_unique_name:
  assumes "distinct (map name gs)" and "g \<in> set gs"
  shows "filter (\<lambda>r. name r = name g) gs = [g]"
  using assms
proof (induction gs)
  case Nil
  then show ?case by simp
next
  case (Cons r gs)
  show ?case
  proof (cases "r = g")
    case True
    with Cons.prems have "\<forall>x \<in> set gs. name x \<noteq> name g"
      by (auto simp: image_iff)
    then have "filter (\<lambda>r. name r = name g) gs = []"
      by (simp add: filter_empty_conv)
    with True show ?thesis by simp
  next
    case False
    with Cons.prems have "g \<in> set gs" and "name r \<noteq> name g" and "distinct (map name gs)"
      by auto
    with Cons.IH show ?thesis by simp
  qed
qed





section \<open>Group.create and Group.get_by_name\<close>

lemma add_admins_frame:
  "groups (pending (foldl (session_add_admin gid) s as)) = groups (pending s) \<and>
   committed (foldl (session_add_admin gid) s as) = committed s \<and>
   active (foldl (session_add_admin gid) s as) = active s \<and>
   sent (foldl (session_add_admin gid) s as) = sent s"
  by (induction as arbitrary: s) (simp_all add: session_add_admin_def)

lemma integrity_add_group:
  assumes "integrity st" and "name g \<notin> set (map name (groups st))"
    and "Group_id g = next_id (map Group_id (groups st))"
  shows "integrity (st\<lparr>groups := groups st @ [g]\<rparr>)"
proof -
  have "Group_id g \<notin> set (map Group_id (groups st))"
    using next_id_fresh [of "Group_id g" "map Group_id (groups st)"] assms(3) by auto
  with assms(1,2) show ?thesis
    by (auto simp: integrity_def unique_keys_def foreign_keys_def list_all_iff)
qed

lemma no_integrity_dup_name:
  assumes "groups st' = gs @ [g]" and "name g \<in> set (map name gs)"
  shows "\<not> integrity st'"
  using assms by (auto simp: integrity_def unique_keys_def)

lemma Group_create_new:
  assumes "clean s" and "integrity (committed s)" and "X \<noteq> []"
    and "X \<notin> set (map name (groups (committed s)))"
    and "obj = \<lparr>Group_id = next_id (map Group_id (groups (committed s))), name = X,
                 description = d, is_managed = m, privacy_policy = PrivacyPolicy_ADMINS,
                 subscription_policy = SubscriptionPolicy_CLOSED\<rparr>"
    and "st' = (committed s)\<lparr>groups := groups (committed s) @ [obj]\<rparr>"
  shows "Group_create s (Some X) d None None m None =
           (Inr obj, s\<lparr>committed := st', pending := st', sent := sent s @ [group_created obj]\<rparr>)"
    and "integrity st'"
proof -
  show ok: "integrity st'"
    unfolding assms(6) using assms(2,4) by (intro integrity_add_group) (simp_all add: assms(5))
  have p: "pending s = committed s" and a: "active s"
    using assms(1) by (simp_all add: clean_def)
  show "Group_create s (Some X) d None None m None =
           (Inr obj, s\<lparr>committed := st', pending := st', sent := sent s @ [group_created obj]\<rparr>)"
    using ok assms(3) a
    by (simp add: Group_create_def session_add_group_def commit_def send_def p Let_def
        assms(5) [symmetric] assms(6) [symmetric])
qed

lemma Group_create_dup:
  assumes "clean s" and "X \<noteq> []" and "X \<in> set (map name (groups (committed s)))"
  shows "Group_create s (Some X) d None None m admins = (Inl IntegrityError, s)"
proof -
  define obj where "obj = \<lparr>Group_id = next_id (map Group_id (groups (pending s))), name = X,
                 description = d, is_managed = m, privacy_policy = PrivacyPolicy_ADMINS,
                 subscription_policy = SubscriptionPolicy_CLOSED\<rparr>"
  define s2 where "s2 = foldl (session_add_admin (Group_id obj)) (session_add_group obj s)
                          (case admins of None \<Rightarrow> [] | Some as \<Rightarrow> as)"
  have p: "pending s = committed s" and a: "active s"
    using assms(1) by (simp_all add: clean_def)
  have frame: "groups (pending s2) = groups (committed s) @ [obj]"
    "committed s2 = committed s" "sent s2 = sent s" "active s2"
    unfolding s2_def using add_admins_frame [of "Group_id obj" "session_add_group obj s"]
    by (simp_all add: session_add_group_def p a)
  have "\<not> integrity (pending s2)"
    using frame(1) assms(3) by (intro no_integrity_dup_name [of _ "groups (committed s)" obj])
      (simp_all add: obj_def)
  then have "commit s2 =
      (Inl IntegrityError, s2\<lparr>pending := committed s2, active := False\<rparr>)"
    using frame(4) by (simp add: commit_def)
  moreover have "rollback (s2\<lparr>pending := committed s2, active := False\<rparr>) = s"
    using assms(1) frame(2,3) by (intro rollback_after_writes) simp_all
  ultimately show ?thesis
    using assms(2) unfolding s2_def obj_def
    by (simp add: Group_create_def Let_def)
qed

text \<open>
  C6: in a clean session whose store keeps its constraints and for a non-empty name
  \<open>X\<close>, after \<^verbatim>\<open>Group.create(name=X)\<close> the call \<^verbatim>\<open>Group.get_by_name(X)\<close> returns a
  group whose name is \<open>X\<close>: the group just created when no group had that name, and
  the group that has it when the creation failed on the unique name. A second
  \<^verbatim>\<open>create\<close> with the name \<open>X\<close> raises \<^verbatim>\<open>IntegrityError\<close> and leaves the session, and
  with it the group \<^verbatim>\<open>get_by_name\<close> returns, as it was.
\<close>

theorem Group_create_then_get_by_name:
  assumes "clean s" and "integrity (committed s)" and "X \<noteq> []"
  shows "\<exists>r s' g. Group_create s (Some X) d None None m None = (r, s') \<and>
     clean s' \<and> integrity (committed s') \<and>
     Group_get_by_name s' X = Inr (Some g) \<and> name g = X \<and>
     (if X \<in> set (map name (groups (committed s)))
      then r = Inl IntegrityError \<and> s' = s
      else r = Inr g \<and> groups (committed s') = groups (committed s) @ [g]) \<and>
     Group_create s' (Some X) d' None None m' admins' = (Inl IntegrityError, s') \<and>
     Group_get_by_name (snd (Group_create s' (Some X) d' None None m' admins')) X =
       Inr (Some g)"
proof (cases "X \<in> set (map name (groups (committed s)))")
  case True
  then obtain g where g: "g \<in> set (groups (committed s))" "name g = X"
    by auto
  have p: "pending s = committed s" and a: "active s"
    using assms(1) by (simp_all add: clean_def)
  have "filter (\<lambda>r. name r = name g) (groups (committed s)) = [g]"
    using assms(2) g(1) by (intro filter_by_unique_name) (simp_all add: integrity_def unique_keys_def)
  then have get: "Group_get_by_name s X = Inr (Some g)"
    by (simp add: Group_get_by_name_def Query_one_def execute_def p a g(2))
  have fail: "Group_create s (Some X) d'' None None m'' a'' = (Inl IntegrityError, s)"
    for d'' m'' a''
    using assms(1,3) True by (rule Group_create_dup)
  show ?thesis
    using True assms(1,2) get g(2) fail
    by (intro exI [of _ "Inl IntegrityError"] exI [of _ s] exI [of _ g]) simp
next
  case False
  define obj where "obj = \<lparr>Group_id = next_id (map Group_id (groups (committed s))), name = X,
                 description = d, is_managed = m, privacy_policy = PrivacyPolicy_ADMINS,
                 subscription_policy = SubscriptionPolicy_CLOSED\<rparr>"
  define st' where "st' = (committed s)\<lparr>groups := groups (committed s) @ [obj]\<rparr>"
  define s' where
    "s' = s\<lparr>committed := st', pending := st', sent := sent s @ [group_created obj]\<rparr>"
  have run: "Group_create s (Some X) d None None m None = (Inr obj, s')"
    and ok: "integrity st'"
    using Group_create_new [OF assms False obj_def st'_def] by (simp_all add: s'_def)
  have cl: "clean s'" and c: "committed s' = st'" and pe: "pending s' = st'"
    and ac: "active s'"
    using assms(1) by (simp_all add: s'_def clean_def)
  have nm: "name obj = X"
    by (simp add: obj_def)
  have "filter (\<lambda>r. name r = name obj) (groups st') = [obj]"
    using ok by (intro filter_by_unique_name) (simp_all add: integrity_def unique_keys_def st'_def)
  then have get: "Group_get_by_name s' X = Inr (Some obj)"
    by (simp add: Group_get_by_name_def Query_one_def execute_def pe ac nm)
  have "X \<in> set (map name (groups (committed s')))"
    by (simp add: c st'_def nm)
  then have fail: "Group_create s' (Some X) d' None None m' admins' = (Inl IntegrityError, s')"
    using cl assms(3) by (intro Group_create_dup)
  have gs: "groups (committed s') = groups (committed s) @ [obj]"
    by (simp add: c st'_def)
  show ?thesis
    using False run cl ok c get nm fail gs
    by (intro exI [of _ "Inr obj"] exI [of _ s'] exI [of _ obj]) simp
qed

theorem Group_create_then_get_by_name_witness:
  "clean example_session \<and> integrity (committed example_session) \<and>
   (\<exists>r s' g. Group_create example_session (Some ''crew'') [] None None False None = (r, s') \<and>
      r = Inr g \<and> g = \<lparr>Group_id = 3, name = ''crew'', description = [],
                         is_managed = False, privacy_policy = PrivacyPolicy_ADMINS,
                         subscription_policy = SubscriptionPolicy_CLOSED\<rparr> \<and>
      Group_get_by_name s' ''crew'' = Inr (Some g) \<and>
      Group_create s' (Some ''crew'') [] None None False None = (Inl IntegrityError, s'))"
proof -
  have new: "''crew'' \<notin> set (map name (groups (committed example_session)))"
    by (simp add: example_defs)
  obtain r s' g where run: "Group_create example_session (Some ''crew'') [] None None False None
        = (r, s')"
    and get: "Group_get_by_name s' ''crew'' = Inr (Some g)"
    and res: "r = Inr g"
    and again: "Group_create s' (Some ''crew'') [] None None False None
        = (Inl IntegrityError, s')"
    using Group_create_then_get_by_name [OF example_session_clean example_store_integrity,
        of "''crew''" "[]" False "[]" False None] new
    by auto
  have "Group_create example_session (Some ''crew'') [] None None False None =
      (Inr \<lparr>Group_id = 3, name = ''crew'', description = [],
            is_managed = False, privacy_policy = PrivacyPolicy_ADMINS,
            subscription_policy = SubscriptionPolicy_CLOSED\<rparr>,
       snd (Group_create example_session (Some ''crew'') [] None None False None))"
    by (simp add: Group_create_def session_add_group_def commit_def send_def Let_def
        example_defs integrity_defs next_id_def)
  with run res have "g = \<lparr>Group_id = 3, name = ''crew'', description = [],
            is_managed = False, privacy_policy = PrivacyPolicy_ADMINS,
            subscription_policy = SubscriptionPolicy_CLOSED\<rparr>"
    by simp
  with run get res again show ?thesis
    using example_session_clean example_store_integrity by blast
qed

section \<open>Group.invite_by_emails\<close>

lemma invite_by_emails_first_only:
  "Group_invite_by_emails s self (Some (e # rest)) = Group_invite_by_emails s self (Some [e])"
  by (simp add: Group_invite_by_emails_def)

text \<open>
  C4 fails on the code. The first email of the list belongs to no user, the second is
  bob's, whom \<open>board\<close> could invite (the same call with his email alone inserts the
  \<^verbatim>\<open>PENDING_USER\<close> row). \<^verbatim>\<open>invite_by_emails\<close> returns \<^verbatim>\<open>None\<close> from the handler of
  the first lookup and writes nothing: the handler returns where the loop should go on.
\<close>

theorem Group_invite_by_emails_stops_at_first_email:
  "one (filter (\<lambda>u. email u = ''carol@example.org'') (users (pending example_session))) =
     Inl NoResultFound \<and>
   one (filter (\<lambda>u. email u = ''bob@example.org'') (users (pending example_session))) =
     Inr bob \<and>
   Group_invite_by_emails example_session board
       (Some [''carol@example.org'', ''bob@example.org'']) =
     (Inr None, example_session) \<and>
   Group_invite_by_emails example_session board (Some [''bob@example.org'']) =
     (Inr (Some \<lparr>id_user = 2, id_group = 2, state = MembershipState_PENDING_USER\<rparr>),
      joined \<lparr>id_user = 2, id_group = 2, state = MembershipState_PENDING_USER\<rparr>
        example_session)"
  by (simp add: Group_invite_by_emails_def Group_invite_def Group_add_member_def
      Membership_create_def session_add_membership_def commit_def rollback_def returned_def
      joined_def integrity_defs example_defs code_consts Query_one_def execute_def Let_def)

section \<open>Transactions\<close>

text \<open>
  The operations with an exception handler. When one of them raises, the committed
  store and the signals are as before and a session that was clean is unchanged.
  \<^verbatim>\<open>Membership.delete\<close>, \<^verbatim>\<open>Membership.reject\<close> and \<^verbatim>\<open>Group.delete\<close> catch every
  exception, so they always leave a clean session; the two \<^verbatim>\<open>create\<close> methods catch
  \<^verbatim>\<open>IntegrityError\<close>, the one exception a commit raises in a usable session.
\<close>

lemma Membership_create_rolls_back:
  assumes "Membership_create s grp user st = (Inl e, s')"
  shows "committed s' = committed s \<and> sent s' = sent s \<and>
    (active s \<longrightarrow> e = IntegrityError \<and> clean s') \<and> (clean s \<longrightarrow> s' = s)"
proof (cases "active s")
  case True
  let ?s1 = "session_add_membership
     \<lparr>id_user = get_id user, id_group = Group_id grp, state = st\<rparr> s"
  have "e = IntegrityError" and s': "s' = rollback (?s1\<lparr>pending := committed ?s1, active := False\<rparr>)"
    using assms True
    by (auto simp: Membership_create_def commit_def session_add_membership_def Let_def
        split: if_splits)
  moreover have "committed ?s1 = committed s" "sent ?s1 = sent s"
    by (simp_all add: session_add_membership_def)
  ultimately show ?thesis
    using rollback_after_writes [of s "?s1\<lparr>pending := committed ?s1, active := False\<rparr>"]
    by (simp add: rollback_def clean_def)
next
  case False
  then show ?thesis
    using assms
    by (auto simp: Membership_create_def commit_def session_add_membership_def Let_def
        clean_def split: if_splits)
qed

lemma Membership_delete_rolls_back:
  assumes "Membership_delete s grp user = (Inl e, s')"
  shows "committed s' = committed s \<and> sent s' = sent s \<and> clean s' \<and> (clean s \<longrightarrow> s' = s)"
proof -
  have "\<exists>s1. s' = rollback s1 \<and> committed s1 = committed s \<and> sent s1 = sent s"
    using assms
    by (auto simp: Membership_delete_def commit_def Let_def split: if_splits)
  then obtain s1 where "s' = rollback s1" "committed s1 = committed s" "sent s1 = sent s"
    by blast
  then show ?thesis
    using rollback_after_writes [of s s1]
    by (simp add: rollback_def clean_def)
qed

lemma Membership_reject_rolls_back:
  assumes "Membership_reject s self = (Inl e, s')"
  shows "committed s' = committed s \<and> sent s' = sent s \<and> clean s' \<and> (clean s \<longrightarrow> s' = s)"
proof -
  have "\<exists>s1. s' = rollback s1 \<and> committed s1 = committed s \<and> sent s1 = sent s"
    using assms
    by (auto simp: Membership_reject_def commit_def Let_def split: if_splits)
  then obtain s1 where "s' = rollback s1" "committed s1 = committed s" "sent s1 = sent s"
    by blast
  then show ?thesis
    using rollback_after_writes [of s s1]
    by (simp add: rollback_def clean_def)
qed

lemma Group_create_rolls_back:
  assumes "Group_create s name' description' privacy_policy' subscription_policy'
             is_managed' admins = (Inl e, s')"
  shows "committed s' = committed s \<and> sent s' = sent s \<and>
    (active s \<and> e \<noteq> AssertionError \<longrightarrow> e = IntegrityError \<and> clean s') \<and>
    (clean s \<longrightarrow> s' = s)"
proof (cases "e = AssertionError")
  case True
  then have "s' = s"
    using assms
    by (auto simp: Group_create_def commit_def Let_def split: option.splits if_splits)
  with True show ?thesis by simp
next
  case False
  then obtain gid obj where run: "commit (foldl (session_add_admin gid)
      (session_add_group obj s) (case admins of None \<Rightarrow> [] | Some as \<Rightarrow> as)) = (Inl e, s') \<and>
        e \<noteq> IntegrityError \<or>
      (\<exists>s1. commit (foldl (session_add_admin gid)
      (session_add_group obj s) (case admins of None \<Rightarrow> [] | Some as \<Rightarrow> as)) = (Inl e, s1) \<and>
        e = IntegrityError \<and> s' = rollback s1)"
    using assms
    by (auto simp: Group_create_def Let_def split: option.splits if_splits sum.splits
        prod.splits)
  let ?s2 = "foldl (session_add_admin gid) (session_add_group obj s)
      (case admins of None \<Rightarrow> [] | Some as \<Rightarrow> as)"
  have frame: "committed ?s2 = committed s" "sent ?s2 = sent s" "active ?s2 = active s"
    using add_admins_frame [of gid "session_add_group obj s"]
    by (simp_all add: session_add_group_def)
  show ?thesis
  proof (cases "active s")
    case True
    with run frame have "e = IntegrityError"
      and "s' = rollback (?s2\<lparr>pending := committed ?s2, active := False\<rparr>)"
      by (auto simp: commit_def split: if_splits)
    then show ?thesis
      using frame
        rollback_after_writes [of s "?s2\<lparr>pending := committed ?s2, active := False\<rparr>"]
      by (simp add: rollback_def clean_def)
  next
    case False
    with run frame have "s' = ?s2"
      by (auto simp: commit_def split: if_splits)
    with False frame show ?thesis
      by (simp add: clean_def)
  qed
qed

lemma Group_delete_rolls_back:
  assumes "Group_delete s self = (Inl e, s')"
  shows "committed s' = committed s \<and> sent s' = sent s \<and> clean s' \<and> (clean s \<longrightarrow> s' = s)"
proof -
  have "\<exists>s1. s' = rollback s1 \<and> committed s1 = committed s \<and> sent s1 = sent s"
    using assms
    by (auto simp: Group_delete_def commit_def Let_def delete_admins_def
        delete_memberships_def session_delete_group_def split: if_splits)
  then obtain s1 where "s' = rollback s1" "committed s1 = committed s" "sent s1 = sent s"
    by blast
  then show ?thesis
    using rollback_after_writes [of s s1]
    by (simp add: rollback_def clean_def)
qed

text \<open>
  The two operations without a handler: whenever one of them raises, the session is
  inactive afterwards, since nothing calls \<^verbatim>\<open>rollback\<close>.
\<close>

lemma Group_update_no_rollback:
  assumes "Group_update s self n d p q m = (Inl e, s')"
  shows "\<not> active s' \<and> committed s' = committed s \<and> sent s' = sent s \<and>
    (active s \<longrightarrow> e = IntegrityError \<and> pending s' = committed s)"
  using assms
  by (auto simp: Group_update_def commit_def Let_def split: if_splits)

lemma Membership_accept_no_rollback:
  assumes "Membership_accept s self = (Inl e, s')"
  shows "\<not> active s' \<and> committed s' = committed s \<and> sent s' = sent s \<and>
    (active s \<longrightarrow> e = IntegrityError \<and> pending s' = committed s)"
  using assms
  by (auto simp: Membership_accept_def commit_def Let_def split: if_splits)

text \<open>
  C5 fails on the code for \<^verbatim>\<open>Group.update\<close> and \<^verbatim>\<open>Membership.accept\<close>. Renaming
  \<open>board\<close> to the name of \<open>staff\<close> makes the commit of \<^verbatim>\<open>update\<close> raise
  \<^verbatim>\<open>IntegrityError\<close>. The store is unchanged and the failed flush has discarded the
  rename, but \<^verbatim>\<open>update\<close> has no handler, so nothing calls \<^verbatim>\<open>db.session.rollback()\<close>
  and the session stays inactive. The \<^verbatim>\<open>accept\<close> that follows raises
  \<^verbatim>\<open>InvalidRequestError\<close> and leaves the session inactive as well, and a
  \<^verbatim>\<open>subscribe\<close> that succeeds in the example raises too. The operations with a handler
  behave as the claim says: \<^verbatim>\<open>create\<close> with the same duplicate name raises and
  leaves the session as it was, and \<^verbatim>\<open>reject\<close> in the inactive session raises and
  leaves it usable.
\<close>

theorem Group_update_leaves_session_inactive:
  "Group_update example_session board (Some ''staff'') None None None None =
     (Inl IntegrityError, example_session\<lparr>active := False\<rparr>) \<and>
   fst (Membership_accept (example_session\<lparr>active := False\<rparr>)
          \<lparr>id_user = 1, id_group = 1, state = MembershipState_PENDING_USER\<rparr>) =
     Inl InvalidRequestError \<and>
   \<not> active (snd (Membership_accept (example_session\<lparr>active := False\<rparr>)
          \<lparr>id_user = 1, id_group = 1, state = MembershipState_PENDING_USER\<rparr>)) \<and>
   committed (snd (Membership_accept (example_session\<lparr>active := False\<rparr>)
          \<lparr>id_user = 1, id_group = 1, state = MembershipState_PENDING_USER\<rparr>)) =
     example_store \<and>
   fst (Group_subscribe (example_session\<lparr>active := False\<rparr>) board (User_object bob)) =
     Inl InvalidRequestError \<and>
   Group_create example_session (Some ''staff'') [] None None False None =
     (Inl IntegrityError, example_session) \<and>
   Membership_reject (example_session\<lparr>active := False\<rparr>)
       \<lparr>id_user = 1, id_group = 1, state = MembershipState_PENDING_USER\<rparr> =
     (Inl InvalidRequestError, example_session)"
  by (simp add: Group_update_def Group_assign_def Membership_accept_def Membership_reject_def
      Group_create_def session_add_group_def Group_subscribe_def Group_add_member_def
      Membership_create_def session_add_membership_def returned_def commit_def
      rollback_def integrity_defs example_defs code_consts Let_def)

end
